theory Spec2Isabelle
  imports Main "HOL-Library.AList" "HOL-Library.Sublist"
begin

section \<open>Values, objects and the store\<close>

text \<open>
  The module \<open>index.js\<close> works on JavaScript values. Objects are shared and mutated
  (\<open>render\<close> writes into the configuration and into the parsed object), so objects live
  in a store and a value of object type is a reference into it.

  Scope of the model. Numbers are the integers (no \<open>NaN\<close>, no fractions), so the falsy
  number is \<open>0\<close>. Strings are lists of characters. An object has a kind, its own
  properties in the order in which \<open>for ... in\<close> enumerates them, and the properties it
  sees through its prototype chain (\<open>inherited\<close>), each with its value and whether it
  is enumerable. Properties are plain data properties of extensible objects (no
  accessors, no frozen objects), own properties are enumerable, and the keys of each
  list are pairwise different. Members that primitives inherit from their wrapper prototypes are
  not modelled. A reference outside the store does not occur in JavaScript; reading it
  gives \<open>Undefined\<close> and writing it fails.
\<close>

type_synonym addr = nat

datatype jsval =
    Undefined
  | Null
  | Bool bool
  | Num int
  | Str string
  | Ref addr

datatype objkind =
    Plain
  | ArrayOf "jsval list"
  | Callable
  | ErrorOf string

datatype jsobj = JSObj (kind: objkind) (own: "(string \<times> jsval) list")
  (inherited: "(string \<times> jsval \<times> bool) list")

type_synonym heap = "jsobj list"

text \<open>
  What is thrown: a \<open>TypeError\<close> raised by the language itself (reading a property of
  \<open>undefined\<close>, calling what is not a function, writing a property of a primitive in
  strict mode), or any value raised by a collaborator or constructed by the code.
\<close>

datatype jserr = TypeError | Raised jsval

text \<open>
  The conversions of the language that the source leaves to the engine, on the values
  where they are not the identity: \<open>ToString\<close> of a value that is not a string (used by
  \<open>+\<close> on strings and by \<open>new Error\<close>), and the number of indices \<open>0, 1, 2, ...\<close> that
  compare below a value that is not a number (used by \<open>index < x.length\<close>).
\<close>

record engine =
  ToString :: "heap \<Rightarrow> jsval \<Rightarrow> string"
  CountBelow :: "heap \<Rightarrow> jsval \<Rightarrow> nat"

fun truthy :: "jsval \<Rightarrow> bool" where
  "truthy Undefined = False"
| "truthy Null = False"
| "truthy (Bool b) = b"
| "truthy (Num n) = (n \<noteq> 0)"
| "truthy (Str s) = (s \<noteq> [])"
| "truthy (Ref a) = True"

fun nullish :: "jsval \<Rightarrow> bool" where
  "nullish Undefined = True"
| "nullish Null = True"
| "nullish v = False"

definition to_string :: "engine \<Rightarrow> heap \<Rightarrow> jsval \<Rightarrow> string" where
  "to_string eng h v = (case v of Str s \<Rightarrow> s | _ \<Rightarrow> ToString eng h v)"

text \<open>How often \<open>for (index = 0; index < len; ++index)\<close> runs its body.\<close>

definition iterations :: "engine \<Rightarrow> heap \<Rightarrow> jsval \<Rightarrow> nat" where
  "iterations eng h len =
     (case len of
        Num n \<Rightarrow> nat n
      | Undefined \<Rightarrow> 0
      | Null \<Rightarrow> 0
      | Bool b \<Rightarrow> (if b then 1 else 0)
      | _ \<Rightarrow> CountBelow eng h len)"

subsection \<open>Property keys of array elements\<close>

text \<open>A property key is a string; the key of element \<open>i\<close> is \<open>i\<close> in decimal.\<close>

definition digit_char :: "nat \<Rightarrow> char" where
  "digit_char d = char_of (48 + d)"

fun string_of_nat :: "nat \<Rightarrow> string" where
  "string_of_nat n =
     (if n < 10 then [digit_char n] else string_of_nat (n div 10) @ [digit_char (n mod 10)])"

declare string_of_nat.simps [simp del]

definition index_of_key :: "string \<Rightarrow> nat \<Rightarrow> nat option" where
  "index_of_key k n = find (\<lambda>i. string_of_nat i = k) [0..<n]"

subsection \<open>Reading and writing properties\<close>

definition named_member :: "jsobj \<Rightarrow> string \<Rightarrow> jsval" where
  "named_member obj k =
     (case map_of (own obj) k of
        Some v \<Rightarrow> v
      | None \<Rightarrow> (case map_of (inherited obj) k of Some (v, e) \<Rightarrow> v | None \<Rightarrow> Undefined))"

definition obj_member :: "jsobj \<Rightarrow> string \<Rightarrow> jsval" where
  "obj_member obj k =
     (case kind obj of
        ArrayOf xs \<Rightarrow>
          (if k = ''length'' then Num (int (length xs))
           else (case index_of_key k (length xs) of
                   Some i \<Rightarrow> xs ! i
                 | None \<Rightarrow> named_member obj k))
      | ErrorOf m \<Rightarrow> (if k = ''message'' then Str m else named_member obj k)
      | _ \<Rightarrow> named_member obj k)"

text \<open>\<open>v[k]\<close> for a receiver that is neither \<open>undefined\<close> nor \<open>null\<close>.\<close>

definition get_member :: "heap \<Rightarrow> jsval \<Rightarrow> string \<Rightarrow> jsval" where
  "get_member h v k =
     (case v of
        Ref a \<Rightarrow> (if a < length h then obj_member (h ! a) k else Undefined)
      | Str s \<Rightarrow>
          (if k = ''length'' then Num (int (length s))
           else (case index_of_key k (length s) of
                   Some i \<Rightarrow> Str [s ! i]
                 | None \<Rightarrow> Undefined))
      | _ \<Rightarrow> Undefined)"

text \<open>\<open>v[k]\<close> in general: reading a property of \<open>undefined\<close> or \<open>null\<close> throws.\<close>

definition get_prop :: "heap \<Rightarrow> jsval \<Rightarrow> string \<Rightarrow> jserr + jsval" where
  "get_prop h v k = (if nullish v then Inl TypeError else Inr (get_member h v k))"

definition obj_set :: "jsobj \<Rightarrow> string \<Rightarrow> jsval \<Rightarrow> jsobj" where
  "obj_set obj k x = JSObj (kind obj) (AList.update k x (own obj)) (inherited obj)"

text \<open>
  \<open>v.k = x\<close> in strict mode, for the names the source assigns (none is an array index,
  \<open>length\<close> or \<open>message\<close>): only an object takes the property.
\<close>

definition set_prop :: "heap \<Rightarrow> jsval \<Rightarrow> string \<Rightarrow> jsval \<Rightarrow> jserr + heap" where
  "set_prop h v k x =
     (case v of
        Ref a \<Rightarrow> (if a < length h then Inr (h[a := obj_set (h ! a) k x]) else Inl TypeError)
      | _ \<Rightarrow> Inl TypeError)"

text \<open>A new object gets the next address.\<close>

definition alloc :: "heap \<Rightarrow> jsobj \<Rightarrow> jsval \<times> heap" where
  "alloc h obj = (Ref (length h), h @ [obj])"

text \<open>\<open>typeof v === 'object'\<close>: \<open>null\<close> and every object that is not a function.\<close>

definition typeof_object :: "heap \<Rightarrow> jsval \<Rightarrow> bool" where
  "typeof_object h v =
     (case v of
        Null \<Rightarrow> True
      | Ref a \<Rightarrow> (if a < length h then kind (h ! a) \<noteq> Callable else True)
      | _ \<Rightarrow> False)"

text \<open>
  The keys \<open>for (key in v)\<close> visits: the own keys (array indices first), then the
  enumerable inherited ones that no own key hides. \<open>null\<close> has none.
\<close>

definition own_keys :: "jsobj \<Rightarrow> string list" where
  "own_keys obj =
     (case kind obj of ArrayOf xs \<Rightarrow> map string_of_nat [0..<length xs] | _ \<Rightarrow> [])
     @ map fst (own obj)"

definition for_in_keys :: "heap \<Rightarrow> jsval \<Rightarrow> string list" where
  "for_in_keys h v =
     (case v of
        Ref a \<Rightarrow>
          (if a < length h
           then own_keys (h ! a)
                @ filter (\<lambda>k. k \<notin> set (own_keys (h ! a)))
                    (map fst (filter (\<lambda>(k, v, e). e) (inherited (h ! a))))
           else [])
      | _ \<Rightarrow> [])"

text \<open>
  What the built-in \<open>Object.prototype.hasOwnProperty\<close> answers for \<open>v\<close> and \<open>key\<close>:
  whether \<open>key\<close> is one of the own keys of \<open>v\<close>.
\<close>

definition own_property :: "heap \<Rightarrow> jsval \<Rightarrow> string \<Rightarrow> bool" where
  "own_property h v key =
     (case v of
        Ref a \<Rightarrow> a < length h \<and> key \<in> set (own_keys (h ! a))
      | _ \<Rightarrow> False)"

section \<open>Promises and calls\<close>

text \<open>
  The module chains promises and has one thread of control, so a promise is modelled by
  how it ends: it stays pending for ever, it is resolved with a value, or it is rejected.
  What a call gives back: it throws, it returns a value that is not a promise, or it
  returns a promise. Every call also takes the store and gives back the store it leaves.
\<close>

datatype outcome = Pending | Resolved jsval | Rejected jserr

datatype result = Threw jserr | Returned jsval | Promised outcome

text \<open>
  What \<open>promise.then(callback)\<close> becomes once \<open>callback\<close> has run: a throw rejects, a
  returned promise is followed, any other returned value resolves.
\<close>

fun settled :: "result \<Rightarrow> outcome" where
  "settled (Threw e) = Rejected e"
| "settled (Returned v) = Resolved v"
| "settled (Promised p) = p"

text \<open>
  The surroundings of the module: the \<open>version\<close> field of \<open>package.json\<close>, the parser
  \<open>raml2obj.parse\<close>, what each function object does when it is called (by its address,
  with \<open>this\<close> and one argument), and what an object literal inherits. The functions
  of the language are function objects too: an object has the built-in
  \<open>hasOwnProperty\<close> when its member of that name is a function object that \<open>call\<close>
  makes answer as \<open>own_property\<close> does.
\<close>

record world =
  pjson_version :: string
  raml2obj_parse :: "jsval \<Rightarrow> heap \<Rightarrow> result \<times> heap"
  call :: "addr \<Rightarrow> jsval \<Rightarrow> jsval \<Rightarrow> heap \<Rightarrow> result \<times> heap"
  object_prototype :: "(string \<times> jsval \<times> bool) list"

text \<open>\<open>this.f(x)\<close> for a value \<open>f\<close>: calling what is not a function throws.\<close>

definition invoke :: "world \<Rightarrow> heap \<Rightarrow> jsval \<Rightarrow> jsval \<Rightarrow> jsval \<Rightarrow> result \<times> heap" where
  "invoke w h f this x =
     (case f of
        Ref a \<Rightarrow>
          (if a < length h \<and> kind (h ! a) = Callable then call w a this x h
           else (Threw TypeError, h))
      | _ \<Rightarrow> (Threw TypeError, h))"


section \<open>The helpers that the default renderer puts on the parsed object\<close>

subsection \<open>\<open>securitySchemeWithName\<close> (index.js, lines 72 to 78)\<close>

text \<open>
  The closure reads the variable \<open>ramlObj\<close> when it is called, so \<open>ramlObj\<close> below is
  the value the variable has then (after line 103, the expanded object), and \<open>h\<close> the
  store at that moment.

  The loop over \<open>index\<close>, as a recursion over the indices still to visit. \<open>schemes\<close>
  is the value of \<open>ramlObj.securitySchemes\<close>. The body reads
  \<open>schemes[index][name]\<close>, returns it when it is truthy, and goes on otherwise; after
  the last index the function ends without \<open>return\<close>, which gives \<open>undefined\<close>.
\<close>

fun scheme_loop :: "heap \<Rightarrow> jsval \<Rightarrow> string \<Rightarrow> nat list \<Rightarrow> jserr + jsval" where
  "scheme_loop h schemes name [] = Inr Undefined"
| "scheme_loop h schemes name (index # rest) =
     (case get_prop h (get_member h schemes (string_of_nat index)) name of
        Inl e \<Rightarrow> Inl e
      | Inr v \<Rightarrow> (if truthy v then Inr v else scheme_loop h schemes name rest))"

definition securitySchemeWithName ::
  "engine \<Rightarrow> heap \<Rightarrow> jsval \<Rightarrow> string \<Rightarrow> jserr + jsval" where
  "securitySchemeWithName eng h ramlObj name =
     (case get_prop h ramlObj ''securitySchemes'' of
        Inl e \<Rightarrow> Inl e
      | Inr schemes \<Rightarrow>
          (case get_prop h schemes ''length'' of
             Inl e \<Rightarrow> Inl e
           | Inr len \<Rightarrow> scheme_loop h schemes name [0..<iterations eng h len]))"

subsection \<open>\<open>renderSecuredBy\<close> (index.js, lines 81 to 100)\<close>

text \<open>The inner loop: one list item for each scope.\<close>

fun scope_items :: "engine \<Rightarrow> heap \<Rightarrow> jsval \<Rightarrow> nat list \<Rightarrow> string" where
  "scope_items eng h scopes [] = []"
| "scope_items eng h scopes (index # rest) =
     ''<li>'' @ to_string eng h (get_member h scopes (string_of_nat index)) @ ''</li>''
     @ scope_items eng h scopes rest"

text \<open>
  Line 85, \<open>securedBy.hasOwnProperty(key)\<close> as the condition of an \<open>if\<close>: the member
  \<open>hasOwnProperty\<close> of the object is read and called on the object with the key.
  Calling what is not a function throws; a returned value counts by its truthiness; a
  promise is an object, hence truthy. The call may change the store.
\<close>

definition hasOwnProperty ::
  "world \<Rightarrow> heap \<Rightarrow> jsval \<Rightarrow> string \<Rightarrow> (jserr + bool) \<times> heap" where
  "hasOwnProperty w h v key =
     (case get_prop h v ''hasOwnProperty'' of
        Inl e \<Rightarrow> (Inl e, h)
      | Inr f \<Rightarrow>
          (case invoke w h f v (Str key) of
             (Threw e, h') \<Rightarrow> (Inl e, h')
           | (Returned b, h') \<Rightarrow> (Inr (truthy b), h')
           | (Promised p, h') \<Rightarrow> (Inr True, h')))"

text \<open>
  The outer loop, with \<open>out\<close> as the accumulator, over the keys that \<open>for (key in
  securedBy)\<close> found when it started; a key that is no longer a property of the object
  when its turn comes is not visited. Reading \<open>securedBy[key].scopes.length\<close> throws when
  \<open>securedBy[key]\<close> or its \<open>scopes\<close> is \<open>undefined\<close> or \<open>null\<close>.
\<close>

fun secured_loop ::
  "engine \<Rightarrow> world \<Rightarrow> heap \<Rightarrow> jsval \<Rightarrow> string list \<Rightarrow> string
   \<Rightarrow> (jserr + string) \<times> heap" where
  "secured_loop eng w h securedBy [] out = (Inr out, h)"
| "secured_loop eng w h securedBy (key # rest) out =
     (if key \<in> set (for_in_keys h securedBy) then
        (case hasOwnProperty w h securedBy key of
           (Inl e, h') \<Rightarrow> (Inl e, h')
         | (Inr own_key, h') \<Rightarrow>
             (if own_key then
                (case get_prop h' (get_member h' securedBy key) ''scopes'' of
                   Inl e \<Rightarrow> (Inl e, h')
                 | Inr scopes \<Rightarrow>
                     (case get_prop h' scopes ''length'' of
                        Inl e \<Rightarrow> (Inl e, h')
                      | Inr len \<Rightarrow>
                          (if truthy len then
                             secured_loop eng w h' securedBy rest
                               (out @ ''<b>'' @ key @ ''</b>'' @ '' with scopes:<ul>''
                                @ scope_items eng h' scopes [0..<iterations eng h' len]
                                @ ''</ul>'')
                           else secured_loop eng w h' securedBy rest
                                  (out @ ''<b>'' @ key @ ''</b>''))))
              else secured_loop eng w h' securedBy rest out))
      else secured_loop eng w h securedBy rest out)"

definition renderSecuredBy ::
  "engine \<Rightarrow> world \<Rightarrow> heap \<Rightarrow> jsval \<Rightarrow> (jserr + string) \<times> heap" where
  "renderSecuredBy eng w h securedBy =
     (if typeof_object h securedBy
      then secured_loop eng w h securedBy (for_in_keys h securedBy) []
      else (Inr (''<b>'' @ to_string eng h securedBy @ ''</b>''), h))"

section \<open>\<open>render\<close> (index.js, lines 19 to 37)\<close>

text \<open>
  Lines 20 and 21: \<open>config = config || {}\<close>, then the version stamp. The result is the
  configuration in use and the store; the assignment throws when \<open>config\<close> is a truthy
  primitive.
\<close>

definition stamp_config :: "world \<Rightarrow> jsval \<Rightarrow> heap \<Rightarrow> jserr + (jsval \<times> heap)" where
  "stamp_config w config h =
     (let (config', h0) =
            (if truthy config then (config, h)
             else alloc h (JSObj Plain [] (object_prototype w)))
      in case set_prop h0 config' ''raml2HtmlVersion'' (Str (pjson_version w)) of
           Inl e \<Rightarrow> Inl e
         | Inr h1 \<Rightarrow> Inr (config', h1))"

text \<open>
  Lines 28 to 31, the callback on the renderer's promise: with a truthy
  \<open>config.postProcessHtml\<close> its result is returned, otherwise the html itself.
\<close>

definition rendered_callback :: "world \<Rightarrow> jsval \<Rightarrow> jsval \<Rightarrow> heap \<Rightarrow> result \<times> heap" where
  "rendered_callback w config html h =
     (case get_prop h config ''postProcessHtml'' of
        Inl e \<Rightarrow> (Threw e, h)
      | Inr g \<Rightarrow> (if truthy g then invoke w h g config html else (Returned html, h)))"

text \<open>
  \<open>p.then(callback)\<close> for the promise a call gave back; \<open>.then\<close> of what is not a promise
  throws.
\<close>

definition then_rendered :: "world \<Rightarrow> jsval \<Rightarrow> result \<times> heap \<Rightarrow> result \<times> heap" where
  "then_rendered w config rh =
     (case rh of
        (Threw e, h) \<Rightarrow> (Threw e, h)
      | (Returned v, h) \<Rightarrow> (Threw TypeError, h)
      | (Promised Pending, h) \<Rightarrow> (Promised Pending, h)
      | (Promised (Rejected e), h) \<Rightarrow> (Promised (Rejected e), h)
      | (Promised (Resolved html), h) \<Rightarrow>
          (case rendered_callback w config html h of (r, h') \<Rightarrow> (Promised (settled r), h')))"

text \<open>Lines 26 to 35: the renderer when there is one, the parsed object otherwise.\<close>

definition dispatch :: "world \<Rightarrow> jsval \<Rightarrow> jsval \<Rightarrow> heap \<Rightarrow> result \<times> heap" where
  "dispatch w config ramlObj h =
     (case get_prop h config ''processRamlObj'' of
        Inl e \<Rightarrow> (Threw e, h)
      | Inr f \<Rightarrow>
          (if truthy f then then_rendered w config (invoke w h f config ramlObj)
           else (Returned ramlObj, h)))"

text \<open>Lines 24 to 35, the callback on the parser's promise.\<close>

definition parsed_callback :: "world \<Rightarrow> jsval \<Rightarrow> jsval \<Rightarrow> heap \<Rightarrow> result \<times> heap" where
  "parsed_callback w config ramlObj h =
     (case set_prop h ramlObj ''config'' config of
        Inl e \<Rightarrow> (Threw e, h)
      | Inr h' \<Rightarrow> dispatch w config ramlObj h')"

definition render :: "world \<Rightarrow> jsval \<Rightarrow> jsval \<Rightarrow> heap \<Rightarrow> result \<times> heap" where
  "render w source config h =
     (case stamp_config w config h of
        Inl e \<Rightarrow> (Threw e, h)
      | Inr (config', h1) \<Rightarrow>
          (case raml2obj_parse w source h1 of
             (Threw e, h2) \<Rightarrow> (Threw e, h2)
           | (Returned v, h2) \<Rightarrow> (Threw TypeError, h2)
           | (Promised Pending, h2) \<Rightarrow> (Promised Pending, h2)
           | (Promised (Rejected e), h2) \<Rightarrow> (Promised (Rejected e), h2)
           | (Promised (Resolved ramlObj), h2) \<Rightarrow>
               (case parsed_callback w config' ramlObj h2 of
                  (r, h3) \<Rightarrow> (Promised (settled r), h3))))"

section \<open>\<open>getDefaultConfig\<close> (index.js, lines 44 to 133)\<close>

text \<open>
  \<open>html.replace(/pat/g, rep)\<close> for a pattern of literal characters and a replacement
  without \<open>$\<close>: from left to right, each match is replaced and the scan goes on behind
  it. The empty pattern matches before every character and at the end.
\<close>

function replace_all :: "string \<Rightarrow> string \<Rightarrow> string \<Rightarrow> string" where
  "replace_all pat rep [] = (if pat = [] then rep else [])"
| "replace_all pat rep (c # cs) =
     (if pat = [] then rep @ c # replace_all pat rep cs
      else if prefix pat (c # cs)
        then rep @ replace_all pat rep (drop (length pat) (c # cs))
        else c # replace_all pat rep cs)"
  by pat_completeness auto
termination
  by (relation "measure (\<lambda>(pat, rep, s). length s)") (auto simp: neq_Nil_conv)

text \<open>
  The libraries the default functions use: \<open>nunjucks.configure(path, {watch: false})\<close>,
  \<open>markdown.register\<close> with the renderer for tables, \<open>expandJsonSchemas\<close>, \<open>env.render\<close>,
  which gives a string or throws, and \<open>minimize.parse\<close> of a minifier made with
  \<open>{quotes: true}\<close>. \<open>'env\<close> is the type of nunjucks environments.
\<close>

datatype minimized = ParseThrows jserr | Callbacks "(jsval \<times> jsval) list"

record 'env libraries =
  configure :: "jsval \<Rightarrow> heap \<Rightarrow> (jserr + 'env) \<times> heap"
  register_markdown :: "'env \<Rightarrow> heap \<Rightarrow> (jserr + 'env) \<times> heap"
  expandJsonSchemas :: "jsval \<Rightarrow> heap \<Rightarrow> (jserr + jsval) \<times> heap"
  env_render :: "'env \<Rightarrow> jsval \<Rightarrow> jsval \<Rightarrow> heap \<Rightarrow> (jserr + string) \<times> heap"
  minimize_parse :: "jsval \<Rightarrow> heap \<Rightarrow> minimized \<times> heap"

text \<open>
  Lines 54 to 113. The two function objects put on \<open>ramlObj\<close> are the closures
  \<open>securitySchemeWithName\<close> and \<open>renderSecuredBy\<close> above. The promise comes from
  \<open>Q.fcall\<close> of a function that returns \<open>html\<close>, so it is resolved with \<open>html\<close>.
\<close>

definition default_processRamlObj ::
  "'env libraries \<Rightarrow> jsval \<Rightarrow> jsval \<Rightarrow> jsval \<Rightarrow> heap \<Rightarrow> result \<times> heap" where
  "default_processRamlObj lib mainTemplate templatesPath ramlObj h =
     (case configure lib templatesPath h of
        (Inl e, h1) \<Rightarrow> (Threw e, h1)
      | (Inr env, h1) \<Rightarrow>
     (case register_markdown lib env h1 of
        (Inl e, h2) \<Rightarrow> (Threw e, h2)
      | (Inr env', h2) \<Rightarrow>
     (case alloc h2 (JSObj Callable [] []) of (fn1, h3) \<Rightarrow>
     (case set_prop h3 ramlObj ''securitySchemeWithName'' fn1 of
        Inl e \<Rightarrow> (Threw e, h3)
      | Inr h4 \<Rightarrow>
     (case alloc h4 (JSObj Callable [] []) of (fn2, h5) \<Rightarrow>
     (case set_prop h5 ramlObj ''renderSecuredBy'' fn2 of
        Inl e \<Rightarrow> (Threw e, h5)
      | Inr h6 \<Rightarrow>
     (case expandJsonSchemas lib ramlObj h6 of
        (Inl e, h7) \<Rightarrow> (Threw e, h7)
      | (Inr expanded, h7) \<Rightarrow>
     (case env_render lib env' mainTemplate expanded h7 of
        (Inl e, h8) \<Rightarrow> (Threw e, h8)
      | (Inr html, h8) \<Rightarrow>
          (Promised (Resolved (Str (replace_all ''&quot;'' [CHR 0x22] html))), h8)))))))))"

text \<open>
  Lines 122 to 128, the callback given to the minifier, for each time the minifier calls
  it: a truthy \<open>error\<close> makes a new \<open>Error\<close> from it and rejects with that, otherwise the
  promise is resolved with \<open>result\<close>. Only the first call settles the promise.
\<close>

fun minimize_callbacks ::
  "engine \<Rightarrow> (jsval \<times> jsval) list \<Rightarrow> outcome \<Rightarrow> heap \<Rightarrow> outcome \<times> heap" where
  "minimize_callbacks eng [] p h = (p, h)"
| "minimize_callbacks eng ((error, result) # calls) p h =
     (if truthy error then
        (case alloc h (JSObj (ErrorOf (to_string eng h error)) [] []) of
           (err, h') \<Rightarrow>
             minimize_callbacks eng calls (if p = Pending then Rejected (Raised err) else p) h')
      else minimize_callbacks eng calls (if p = Pending then Resolved result else p) h)"

text \<open>Lines 115 to 131.\<close>

definition default_postProcessHtml ::
  "engine \<Rightarrow> 'env libraries \<Rightarrow> jsval \<Rightarrow> heap \<Rightarrow> result \<times> heap" where
  "default_postProcessHtml eng lib html h =
     (case minimize_parse lib html h of
        (ParseThrows e, h1) \<Rightarrow> (Threw e, h1)
      | (Callbacks calls, h1) \<Rightarrow>
          (case minimize_callbacks eng calls Pending h1 of (p, h2) \<Rightarrow> (Promised p, h2)))"

text \<open>The object \<open>getDefaultConfig\<close> returns, with its two functions.\<close>

record default_config =
  processRamlObj :: "jsval \<Rightarrow> heap \<Rightarrow> result \<times> heap"
  postProcessHtml :: "jsval \<Rightarrow> heap \<Rightarrow> result \<times> heap"

text \<open>\<open>dirname\<close> is \<open>__dirname\<close>, the directory of the installed package.\<close>

definition getDefaultConfig ::
  "engine \<Rightarrow> 'env libraries \<Rightarrow> string \<Rightarrow> jsval \<Rightarrow> jsval \<Rightarrow> default_config" where
  "getDefaultConfig eng lib dirname mainTemplate templatesPath =
     (case (if \<not> truthy mainTemplate
            then (Str ''./lib/template.nunjucks'', Str dirname)
            else (mainTemplate, templatesPath)) of
        (mainTemplate', templatesPath') \<Rightarrow>
          \<lparr>processRamlObj = default_processRamlObj lib mainTemplate' templatesPath',
           postProcessHtml = default_postProcessHtml eng lib\<rparr>)"

section \<open>Example data\<close>

text \<open>An engine for the examples: none of them reaches a conversion.\<close>

definition example_engine :: engine where
  "example_engine = \<lparr>ToString = (\<lambda>h v. []), CountBelow = (\<lambda>h v. 0)\<rparr>"

text \<open>
  A world in which every function object is the built-in
  \<open>Object.prototype.hasOwnProperty\<close>.
\<close>

definition builtin_world :: world where
  "builtin_world =
     \<lparr>pjson_version = ''2.0.2'',
      raml2obj_parse = (\<lambda>source h. (Promised Pending, h)),
      call =
        (\<lambda>a this x h. (Returned (Bool (own_property h this (to_string example_engine h x))), h)),
      object_prototype = []\<rparr>"


text \<open>\<open>{basic: {scopes: []}}\<close> at address 0.\<close>

definition store_basic :: heap where
  "store_basic =
     [JSObj Plain [(''basic'', Ref 1)] [(''hasOwnProperty'', Ref 3, False)],
      JSObj Plain [(''scopes'', Ref 2)] [(''hasOwnProperty'', Ref 3, False)],
      JSObj (ArrayOf []) [] [(''hasOwnProperty'', Ref 3, False)],
      JSObj Callable [] []]"


text \<open>
  A parsed object at address 0 with \<open>securitySchemes: [{oauth2: {type: "OAuth 2.0"}}]\<close>:
  the sequence is at address 1, its one entry at address 2, the scheme at address 3.
\<close>

definition store_one_scheme :: heap where
  "store_one_scheme =
     [JSObj Plain [(''securitySchemes'', Ref 1)] [],
      JSObj (ArrayOf [Ref 2]) [] [],
      JSObj Plain [(''oauth2'', Ref 3)] [],
      JSObj Plain [(''type'', Str ''OAuth 2.0'')] []]"

text \<open>The same with \<open>securitySchemes: [{oauth2: null}]\<close>.\<close>

definition store_null_scheme :: heap where
  "store_null_scheme =
     [JSObj Plain [(''securitySchemes'', Ref 1)] [],
      JSObj (ArrayOf [Ref 2]) [] [],
      JSObj Plain [(''oauth2'', Null)] []]"

text \<open>
  \<open>securitySchemes: [{oauth2: null}, {basic: {}}, {oauth2: {}}]\<close>: entries at addresses
  2, 3 and 4, the two schemes at addresses 5 and 6.
\<close>

definition store_three_schemes :: heap where
  "store_three_schemes =
     [JSObj Plain [(''securitySchemes'', Ref 1)] [],
      JSObj (ArrayOf [Ref 2, Ref 3, Ref 4]) [] [],
      JSObj Plain [(''oauth2'', Null)] [],
      JSObj Plain [(''basic'', Ref 5)] [],
      JSObj Plain [(''oauth2'', Ref 6)] [],
      JSObj Plain [] [],
      JSObj Plain [] []]"

text \<open>
  Libraries that succeed: the template renderer emits \<open><a title=&quot;x&quot;>\<close>, the
  minifier calls back once, without an error, with the html it was given.
\<close>

definition example_libraries :: "unit libraries" where
  "example_libraries =
     \<lparr>configure = (\<lambda>path h. (Inr (), h)),
      register_markdown = (\<lambda>env h. (Inr env, h)),
      expandJsonSchemas = (\<lambda>v h. (Inr v, h)),
      env_render = (\<lambda>env template v h. (Inr ''<a title=&quot;x&quot;>'', h)),
      minimize_parse = (\<lambda>html h. (Callbacks [(Null, html)], h))\<rparr>"

text \<open>
  Libraries that fail: \<open>nunjucks.configure\<close> throws the search path it was given, the
  minifier calls back once with the error \<open>"unclosed tag"\<close>.
\<close>

definition path_reporting_libraries :: "unit libraries" where
  "path_reporting_libraries =
     \<lparr>configure = (\<lambda>path h. (Inl (Raised path), h)),
      register_markdown = (\<lambda>env h. (Inr env, h)),
      expandJsonSchemas = (\<lambda>v h. (Inr v, h)),
      env_render = (\<lambda>env template v h. (Inr [], h)),
      minimize_parse = (\<lambda>html h. (Callbacks [(Str ''unclosed tag'', Undefined)], h))\<rparr>"

text \<open>
  A world for \<open>render\<close>: the parser makes a new object \<open>{title: source}\<close>; the function
  object at address 1 returns a promise of \<open>"<x>"\<close>, every other one a promise of
  \<open>"min(" + html + ")"\<close>.
\<close>

definition example_world :: world where
  "example_world =
     \<lparr>pjson_version = ''2.0.2'',
      raml2obj_parse =
        (\<lambda>source h. (Promised (Resolved (Ref (length h))),
                      h @ [JSObj Plain [(''title'', source)] []])),
      call =
        (\<lambda>a this x h.
           if a = 1 then (Promised (Resolved (Str ''<x>'')), h)
           else (Promised (Resolved (Str (''min('' @ to_string example_engine h x @ '')''))), h)),
      object_prototype = []\<rparr>"

text \<open>A world whose parser rejects.\<close>

definition rejecting_world :: world where
  "rejecting_world =
     \<lparr>pjson_version = ''2.0.2'',
      raml2obj_parse = (\<lambda>source h. (Promised (Rejected (Raised (Str ''no such file''))), h)),
      call = (\<lambda>a this x h. (Threw TypeError, h)),
      object_prototype = []\<rparr>"

text \<open>
  Configurations at address 0: \<open>{processRamlObj: f}\<close>, \<open>{processRamlObj: f,
  postProcessHtml: g}\<close> with the functions at addresses 1 and 2, and \<open>{}\<close>.
\<close>

definition store_config_renderer :: heap where
  "store_config_renderer =
     [JSObj Plain [(''processRamlObj'', Ref 1)] [],
      JSObj Callable [] [],
      JSObj Callable [] []]"

definition store_config_both :: heap where
  "store_config_both =
     [JSObj Plain [(''processRamlObj'', Ref 1), (''postProcessHtml'', Ref 2)] [],
      JSObj Callable [] [],
      JSObj Callable [] []]"

definition store_config_empty :: heap where
  "store_config_empty = [JSObj Plain [] []]"

section \<open>Array indices as property keys\<close>

lemma digit_char_inj: "d < 10 \<Longrightarrow> e < 10 \<Longrightarrow> digit_char d = digit_char e \<Longrightarrow> d = e"
proof -
  assume d: "d < 10" and e: "e < 10" and eq: "digit_char d = digit_char e"
  from eq have "of_char (digit_char d) = (of_char (digit_char e) :: nat)" by simp
  with d e show "d = e" by (simp add: digit_char_def)
qed

lemma string_of_nat_nonempty: "string_of_nat n \<noteq> []"
  by (subst string_of_nat.simps) simp

lemma string_of_nat_inj: "string_of_nat m = string_of_nat n \<Longrightarrow> m = n"
proof (induction m arbitrary: n rule: string_of_nat.induct)
  case (1 m)
  show ?case
  proof (cases "m < 10")
    case True
    then have m: "string_of_nat m = [digit_char m]" by (subst string_of_nat.simps) simp
    show ?thesis
    proof (cases "n < 10")
      case True
      then have "string_of_nat n = [digit_char n]" by (subst string_of_nat.simps) simp
      with m "1.prems" \<open>m < 10\<close> True show ?thesis by (simp add: digit_char_inj)
    next
      case False
      then have "string_of_nat n = string_of_nat (n div 10) @ [digit_char (n mod 10)]"
        by (subst string_of_nat.simps) simp
      with m "1.prems" have "string_of_nat (n div 10) = []" by simp
      then show ?thesis by (simp add: string_of_nat_nonempty)
    qed
  next
    case False
    then have m: "string_of_nat m = string_of_nat (m div 10) @ [digit_char (m mod 10)]"
      by (subst string_of_nat.simps) simp
    show ?thesis
    proof (cases "n < 10")
      case True
      then have "string_of_nat n = [digit_char n]" by (subst string_of_nat.simps) simp
      with m "1.prems" have "string_of_nat (m div 10) = []" by simp
      then show ?thesis by (simp add: string_of_nat_nonempty)
    next
      case nf: False
      then have n: "string_of_nat n = string_of_nat (n div 10) @ [digit_char (n mod 10)]"
        by (subst string_of_nat.simps) simp
      from m n "1.prems" have a: "string_of_nat (m div 10) = string_of_nat (n div 10)"
        and b: "digit_char (m mod 10) = digit_char (n mod 10)" by simp_all
      from "1.IH" [OF False a] have c: "m div 10 = n div 10" .
      from b have d: "m mod 10 = n mod 10" by (simp add: digit_char_inj)
      from c d show ?thesis by (metis div_mult_mod_eq)
    qed
  qed
qed

lemma string_of_nat_digits: "c \<in> set (string_of_nat n) \<Longrightarrow> \<exists>d<10. c = digit_char d"
proof (induction n rule: string_of_nat.induct)
  case (1 n)
  show ?case
  proof (cases "n < 10")
    case True
    then have "string_of_nat n = [digit_char n]" by (subst string_of_nat.simps) simp
    with "1.prems" True show ?thesis by auto
  next
    case False
    then have "string_of_nat n = string_of_nat (n div 10) @ [digit_char (n mod 10)]"
      by (subst string_of_nat.simps) simp
    with "1.prems" have "c \<in> set (string_of_nat (n div 10)) \<or> c = digit_char (n mod 10)" by auto
    then show ?thesis
    proof
      assume "c \<in> set (string_of_nat (n div 10))"
      with "1.IH" [OF False] show ?thesis .
    next
      assume "c = digit_char (n mod 10)"
      then show ?thesis by (intro exI [of _ "n mod 10"]) simp
    qed
  qed
qed

lemma string_of_nat_not_length: "string_of_nat n \<noteq> ''length''"
proof
  assume eq: "string_of_nat n = ''length''"
  then have "CHR ''l'' \<in> set (string_of_nat n)" by simp
  then obtain d where d: "d < 10" and c: "CHR ''l'' = digit_char d"
    using string_of_nat_digits by blast
  from c have "of_char (CHR ''l'') = (of_char (digit_char d) :: nat)" by simp
  with d show False by (simp add: digit_char_def)
qed

lemma index_of_key_string_of_nat: "i < n \<Longrightarrow> index_of_key (string_of_nat i) n = Some i"
proof -
  assume i: "i < n"
  have "find (\<lambda>j. string_of_nat j = string_of_nat i) [0..<n] = Some i"
  proof (rule find_Some_iff [THEN iffD2], intro exI [of _ i] conjI)
    show "i < length [0..<n]" using i by simp
    show "string_of_nat ([0..<n] ! i) = string_of_nat i" using i by simp
    show "i = [0..<n] ! i" using i by simp
    show "\<forall>j<i. \<not> string_of_nat ([0..<n] ! j) = string_of_nat i"
      using i by (auto dest: string_of_nat_inj)
  qed
  then show ?thesis by (simp add: index_of_key_def)
qed

lemma get_member_array:
  "c < length h \<Longrightarrow> kind (h ! c) = ArrayOf xs \<Longrightarrow> i < length xs \<Longrightarrow>
   get_member h (Ref c) (string_of_nat i) = xs ! i"
  by (simp add: get_member_def obj_member_def string_of_nat_not_length index_of_key_string_of_nat)

lemma get_member_array_length:
  "c < length h \<Longrightarrow> kind (h ! c) = ArrayOf xs \<Longrightarrow>
   get_member h (Ref c) ''length'' = Num (int (length xs))"
  by (simp add: get_member_def obj_member_def)

section \<open>Properties of \<open>renderSecuredBy\<close>\<close>













text \<open>The other example: \<open>{basic: {scopes: []}}\<close> gets no list.\<close>

lemma renderSecuredBy_basic_example:
  "renderSecuredBy example_engine builtin_world store_basic (Ref 0)
     = (Inr ''<b>basic</b>'', store_basic)"
  by code_simp



section \<open>Properties of \<open>securitySchemeWithName\<close>\<close>

lemma scheme_loop_find:
  assumes "\<forall>i\<in>set is. \<not> nullish (get_member h schemes (string_of_nat i))"
  shows "scheme_loop h schemes name is =
         Inr (case find truthy
                (map (\<lambda>i. get_member h (get_member h schemes (string_of_nat i)) name) is) of
                Some v \<Rightarrow> v | None \<Rightarrow> Undefined)"
  using assms by (induction "is") (simp_all add: get_prop_def)

lemma array_elements:
  assumes "s < length h" and "kind (h ! s) = ArrayOf entries"
  shows "map (\<lambda>i. get_member h (Ref s) (string_of_nat i)) [0..<length entries] = entries"
proof -
  have "map (\<lambda>i. get_member h (Ref s) (string_of_nat i)) [0..<length entries]
        = map ((!) entries) [0..<length entries]"
    using assms by (simp add: get_member_array)
  then show ?thesis by (simp add: map_nth)
qed

lemma securitySchemeWithName_find:
  assumes schemes: "get_prop h ramlObj ''securitySchemes'' = Inr (Ref s)"
    and s: "s < length h" and arr: "kind (h ! s) = ArrayOf entries"
    and objs: "\<forall>e\<in>set entries. \<not> nullish e"
  shows "securitySchemeWithName eng h ramlObj name =
         Inr (case find truthy (map (\<lambda>e. get_member h e name) entries) of
                Some v \<Rightarrow> v | None \<Rightarrow> Undefined)"
proof -
  have len: "get_prop h (Ref s) ''length'' = Inr (Num (int (length entries)))"
    using s arr by (simp add: get_prop_def get_member_array_length)
  have it: "iterations eng h (Num (int (length entries))) = length entries"
    by (simp add: iterations_def)
  have nn: "\<forall>i\<in>set [0..<length entries]. \<not> nullish (get_member h (Ref s) (string_of_nat i))"
    using s arr objs by (simp add: get_member_array)
  have "map (\<lambda>i. get_member h (get_member h (Ref s) (string_of_nat i)) name) [0..<length entries]
        = map (\<lambda>e. get_member h e name)
            (map (\<lambda>i. get_member h (Ref s) (string_of_nat i)) [0..<length entries])"
    by (simp add: comp_def)
  also have "\<dots> = map (\<lambda>e. get_member h e name) entries"
    using s arr by (simp only: array_elements)
  finally have m: "map (\<lambda>i. get_member h (get_member h (Ref s) (string_of_nat i)) name)
      [0..<length entries] = map (\<lambda>e. get_member h e name) entries" .
  show ?thesis
    using schemes len it scheme_loop_find [OF nn, of name] m
    by (simp add: securitySchemeWithName_def)
qed

lemma find_first:
  assumes "i < length xs" and "P (xs ! i)" and "\<forall>j<i. \<not> P (xs ! j)"
  shows "find P xs = Some (xs ! i)"
  using assms by (subst find_Some_iff) blast


text \<open>
  C6, as the code has it. Where the \<open>securitySchemes\<close> sequence holds objects,
  \<open>securitySchemeWithName(name)\<close> returns the value stored under \<open>name\<close> in the first
  entry whose value under \<open>name\<close> is truthy: the scheme, not the entry of the sequence that
  contains it. When no entry has a truthy value under \<open>name\<close>, it returns \<open>undefined\<close>.
\<close>

theorem securitySchemeWithName_scheme:
  assumes "get_prop h ramlObj ''securitySchemes'' = Inr (Ref s)"
    and "s < length h" and "kind (h ! s) = ArrayOf entries"
    and "\<forall>e\<in>set entries. \<not> nullish e"
  shows "(i < length entries \<and> truthy (get_member h (entries ! i) name)
          \<and> (\<forall>j<i. \<not> truthy (get_member h (entries ! j) name))
          \<longrightarrow> securitySchemeWithName eng h ramlObj name = Inr (get_member h (entries ! i) name))
       \<and> ((\<forall>e\<in>set entries. \<not> truthy (get_member h e name))
          \<longrightarrow> securitySchemeWithName eng h ramlObj name = Inr Undefined)"
proof (intro conjI impI)
  assume first: "i < length entries \<and> truthy (get_member h (entries ! i) name)
          \<and> (\<forall>j<i. \<not> truthy (get_member h (entries ! j) name))"
  let ?vs = "map (\<lambda>e. get_member h e name) entries"
  have "find truthy ?vs = Some (?vs ! i)"
  proof (rule find_first)
    show "i < length ?vs" using first by simp
    show "truthy (?vs ! i)" using first by simp
    show "\<forall>j<i. \<not> truthy (?vs ! j)" using first by simp
  qed
  moreover have "?vs ! i = get_member h (entries ! i) name" using first by simp
  ultimately show "securitySchemeWithName eng h ramlObj name = Inr (get_member h (entries ! i) name)"
    using securitySchemeWithName_find [OF assms, of eng name] by simp
next
  assume none: "\<forall>e\<in>set entries. \<not> truthy (get_member h e name)"
  then have "find truthy (map (\<lambda>e. get_member h e name) entries) = None"
    by (simp add: find_None_iff)
  then show "securitySchemeWithName eng h ramlObj name = Inr Undefined"
    using securitySchemeWithName_find [OF assms, of eng name] by simp
qed

theorem securitySchemeWithName_scheme_witness:
  "get_prop store_three_schemes (Ref 0) ''securitySchemes'' = Inr (Ref 1)
   \<and> 1 < length store_three_schemes
   \<and> kind (store_three_schemes ! 1) = ArrayOf [Ref 2, Ref 3, Ref 4]
   \<and> get_member store_three_schemes (Ref 2) ''oauth2'' = Null
   \<and> get_member store_three_schemes (Ref 3) ''oauth2'' = Undefined
   \<and> get_member store_three_schemes (Ref 4) ''oauth2'' = Ref 6
   \<and> securitySchemeWithName example_engine store_three_schemes (Ref 0) ''oauth2'' = Inr (Ref 6)
   \<and> get_member store_three_schemes (Ref 2) ''digest'' = Undefined
   \<and> get_member store_three_schemes (Ref 3) ''digest'' = Undefined
   \<and> get_member store_three_schemes (Ref 4) ''digest'' = Undefined
   \<and> securitySchemeWithName example_engine store_three_schemes (Ref 0) ''digest'' = Inr Undefined"
proof -
  have h1: "get_prop store_three_schemes (Ref 0) ''securitySchemes'' = Inr (Ref 1)"
    by (simp add: store_three_schemes_def get_prop_def get_member_def obj_member_def
        named_member_def)
  have h2: "1 < length store_three_schemes" by (simp add: store_three_schemes_def)
  have h3: "kind (store_three_schemes ! 1) = ArrayOf [Ref 2, Ref 3, Ref 4]"
    by (simp add: store_three_schemes_def)
  have h4: "\<forall>e\<in>set [Ref 2, Ref 3, Ref 4]. \<not> nullish e" by simp
  have v: "get_member store_three_schemes (Ref 2) ''oauth2'' = Null"
    "get_member store_three_schemes (Ref 3) ''oauth2'' = Undefined"
    "get_member store_three_schemes (Ref 4) ''oauth2'' = Ref 6"
    by (simp_all add: store_three_schemes_def get_member_def obj_member_def named_member_def)
  have d: "get_member store_three_schemes (Ref 2) ''digest'' = Undefined"
    "get_member store_three_schemes (Ref 3) ''digest'' = Undefined"
    "get_member store_three_schemes (Ref 4) ''digest'' = Undefined"
    by (simp_all add: store_three_schemes_def get_member_def obj_member_def named_member_def)
  have less2: "\<And>j. j < (2::nat) \<longleftrightarrow> j = 0 \<or> j = 1" by auto
  have first: "2 < length [Ref 2, Ref 3, Ref 4]
     \<and> truthy (get_member store_three_schemes ([Ref 2, Ref 3, Ref 4] ! 2) ''oauth2'')
     \<and> (\<forall>j<2. \<not> truthy (get_member store_three_schemes ([Ref 2, Ref 3, Ref 4] ! j) ''oauth2''))"
    using v by (simp add: less2)
  have none: "\<forall>e\<in>set [Ref 2, Ref 3, Ref 4].
      \<not> truthy (get_member store_three_schemes e ''digest'')"
    using d by simp
  from securitySchemeWithName_scheme [OF h1 h2 h3 h4, of 2 "''oauth2''" example_engine]
  have r1: "securitySchemeWithName example_engine store_three_schemes (Ref 0) ''oauth2''
            = Inr (Ref 6)"
    using first v by simp
  from securitySchemeWithName_scheme [OF h1 h2 h3 h4, of 2 "''digest''" example_engine]
  have r2: "securitySchemeWithName example_engine store_three_schemes (Ref 0) ''digest''
            = Inr Undefined"
    using none by simp
  from h1 h2 h3 v d r1 r2 show ?thesis by blast
qed

text \<open>
  C6 as stated fails. With \<open>securitySchemes: [{oauth2: {type: "OAuth 2.0"}}]\<close> the entry
  keyed \<open>oauth2\<close> is the object at address 2, and the function returns the object at
  address 3. With \<open>securitySchemes: [{oauth2: null}]\<close> the sequence contains an entry keyed
  \<open>oauth2\<close>, and the function returns \<open>undefined\<close>.
\<close>

theorem securitySchemeWithName_entry_counterexample:
  "get_member store_one_scheme (Ref 1) ''0'' = Ref 2
   \<and> own_property store_one_scheme (Ref 2) ''oauth2''
   \<and> securitySchemeWithName example_engine store_one_scheme (Ref 0) ''oauth2'' = Inr (Ref 3)
   \<and> securitySchemeWithName example_engine store_one_scheme (Ref 0) ''oauth2'' \<noteq> Inr (Ref 2)
   \<and> get_member store_null_scheme (Ref 1) ''0'' = Ref 2
   \<and> own_property store_null_scheme (Ref 2) ''oauth2''
   \<and> securitySchemeWithName example_engine store_null_scheme (Ref 0) ''oauth2'' = Inr Undefined
   \<and> securitySchemeWithName example_engine store_null_scheme (Ref 0) ''oauth2'' \<noteq> Inr (Ref 2)"
  by code_simp

text \<open>
  C10. \<open>securitySchemeWithName\<close> tests the truthiness of each entry's property at the
  name and returns that property's value: on a sequence of objects the result is the
  first truthy one among the entries' values under the name, in the order of the
  sequence, so an entry with a falsy value there is passed over, and the result is
  \<open>undefined\<close> when there is no truthy one.
\<close>

theorem securitySchemeWithName_truthy_value:
  assumes "get_prop h ramlObj ''securitySchemes'' = Inr (Ref s)"
    and "s < length h" and "kind (h ! s) = ArrayOf entries"
    and "\<forall>e\<in>set entries. \<not> nullish e"
  shows "securitySchemeWithName eng h ramlObj name =
         Inr (case find truthy (map (\<lambda>e. get_member h e name) entries) of
                Some v \<Rightarrow> v | None \<Rightarrow> Undefined)"
  using assms by (rule securitySchemeWithName_find)


theorem securitySchemeWithName_truthy_value_witness:
  "get_prop store_three_schemes (Ref 0) ''securitySchemes'' = Inr (Ref 1)
   \<and> 1 < length store_three_schemes
   \<and> kind (store_three_schemes ! 1) = ArrayOf [Ref 2, Ref 3, Ref 4]
   \<and> map (\<lambda>e. get_member store_three_schemes e ''oauth2'') [Ref 2, Ref 3, Ref 4]
       = [Null, Undefined, Ref 6]
   \<and> securitySchemeWithName example_engine store_three_schemes (Ref 0) ''oauth2'' = Inr (Ref 6)
   \<and> map (\<lambda>e. get_member store_three_schemes e ''basic'') [Ref 2, Ref 3, Ref 4]
       = [Undefined, Ref 5, Undefined]
   \<and> securitySchemeWithName example_engine store_three_schemes (Ref 0) ''basic'' = Inr (Ref 5)"
proof -
  have h1: "get_prop store_three_schemes (Ref 0) ''securitySchemes'' = Inr (Ref 1)"
    by (simp add: store_three_schemes_def get_prop_def get_member_def obj_member_def
        named_member_def)
  have h2: "1 < length store_three_schemes" by (simp add: store_three_schemes_def)
  have h3: "kind (store_three_schemes ! 1) = ArrayOf [Ref 2, Ref 3, Ref 4]"
    by (simp add: store_three_schemes_def)
  have h4: "\<forall>e\<in>set [Ref 2, Ref 3, Ref 4]. \<not> nullish e" by simp
  have vs: "map (\<lambda>e. get_member store_three_schemes e ''oauth2'') [Ref 2, Ref 3, Ref 4]
            = [Null, Undefined, Ref 6]"
    by (simp add: store_three_schemes_def get_member_def obj_member_def named_member_def)
  have ws: "map (\<lambda>e. get_member store_three_schemes e ''basic'') [Ref 2, Ref 3, Ref 4]
            = [Undefined, Ref 5, Undefined]"
    by (simp add: store_three_schemes_def get_member_def obj_member_def named_member_def)
  from securitySchemeWithName_truthy_value [OF h1 h2 h3 h4, of example_engine "''oauth2''"]
  have "securitySchemeWithName example_engine store_three_schemes (Ref 0) ''oauth2''
        = Inr (case find truthy [Null, Undefined, Ref 6] of Some v \<Rightarrow> v | None \<Rightarrow> Undefined)"
    by (simp only: vs)
  then have r: "securitySchemeWithName example_engine store_three_schemes (Ref 0) ''oauth2''
        = Inr (Ref 6)"
    by simp
  from securitySchemeWithName_truthy_value [OF h1 h2 h3 h4, of example_engine "''basic''"]
  have "securitySchemeWithName example_engine store_three_schemes (Ref 0) ''basic''
        = Inr (case find truthy [Undefined, Ref 5, Undefined] of
                 Some v \<Rightarrow> v | None \<Rightarrow> Undefined)"
    by (simp only: ws)
  then have r': "securitySchemeWithName example_engine store_three_schemes (Ref 0) ''basic''
        = Inr (Ref 5)"
    by simp
  from h1 h2 h3 vs ws r r' show ?thesis by blast
qed

section \<open>Properties of \<open>render\<close>\<close>

lemma string_of_nat_not_config: "string_of_nat n \<noteq> ''config''"
proof
  assume eq: "string_of_nat n = ''config''"
  then have "CHR ''c'' \<in> set (string_of_nat n)" by simp
  then obtain d where d: "d < 10" and c: "CHR ''c'' = digit_char d"
    using string_of_nat_digits by blast
  from c have "of_char (CHR ''c'') = (of_char (digit_char d) :: nat)" by simp
  with d show False by (simp add: digit_char_def)
qed

lemma index_of_key_config: "index_of_key ''config'' n = None"
  by (simp add: index_of_key_def find_None_iff string_of_nat_not_config)

lemma map_of_update_same: "map_of (AList.update k x ps) k = Some x"
  by (simp add: update_conv')

lemma get_member_attached:
  assumes "set_prop h v ''config'' x = Inr h'"
  shows "get_member h' v ''config'' = x"
proof -
  from assms obtain a where v: "v = Ref a" and a: "a < length h"
    and h': "h' = h[a := obj_set (h ! a) ''config'' x]"
    by (auto simp: set_prop_def split: jsval.splits if_splits)
  have "obj_member (obj_set (h ! a) ''config'' x) ''config'' = x"
    by (cases "kind (h ! a)")
      (simp_all add: obj_member_def obj_set_def named_member_def map_of_update_same
        index_of_key_config)
  with v a h' show ?thesis by (simp add: get_member_def)
qed

lemma stamp_config_object:
  "c < length h \<Longrightarrow>
   stamp_config w (Ref c) h
     = Inr (Ref c, h[c := obj_set (h ! c) ''raml2HtmlVersion'' (Str (pjson_version w))])"
  by (simp add: stamp_config_def set_prop_def)

lemma render_resolved:
  assumes "stamp_config w config h = Inr (cfg, h1)"
    and "raml2obj_parse w source h1 = (Promised (Resolved (Ref r)), h2)"
    and "r < length h2"
  shows "render w source config h =
         (case dispatch w cfg (Ref r) (h2[r := obj_set (h2 ! r) ''config'' cfg]) of
            (res, h') \<Rightarrow> (Promised (settled res), h'))"
  using assms by (simp add: render_def parsed_callback_def set_prop_def)

text \<open>
  C1. Let the configuration in use be \<open>cfg\<close>, let the parser resolve with \<open>ramlObj\<close>, and
  let \<open>cfg.processRamlObj\<close> be a function \<open>f\<close> whose promise resolves to \<open>x\<close>. Then \<open>f\<close>
  is called with \<open>ramlObj\<close> in the store in which \<open>ramlObj.config\<close> is \<open>cfg\<close>. When
  \<open>cfg.postProcessHtml\<close> is not set, \<open>render\<close> resolves to \<open>x\<close>; when it is a function
  \<open>g\<close>, the promise of \<open>render\<close> ends as the call \<open>g(x)\<close> ends.
\<close>

theorem render_with_renderer:
  assumes stamp: "stamp_config w config h = Inr (cfg, h1)"
    and parsed: "raml2obj_parse w source h1 = (Promised (Resolved ramlObj), h2)"
    and attach: "set_prop h2 ramlObj ''config'' cfg = Inr h3"
    and f: "get_prop h3 cfg ''processRamlObj'' = Inr f" "truthy f"
    and run: "invoke w h3 f cfg ramlObj = (Promised (Resolved x), h4)"
    and g: "get_prop h4 cfg ''postProcessHtml'' = Inr g"
  shows "get_member h3 ramlObj ''config'' = cfg
     \<and> (\<not> truthy g \<longrightarrow> render w source config h = (Promised (Resolved x), h4))
     \<and> (truthy g \<longrightarrow> render w source config h
           = (Promised (settled (fst (invoke w h4 g cfg x))), snd (invoke w h4 g cfg x)))"
proof (intro conjI impI)
  show "get_member h3 ramlObj ''config'' = cfg" using attach by (rule get_member_attached)
next
  assume "\<not> truthy g"
  with g have "rendered_callback w cfg x h4 = (Returned x, h4)"
    by (simp add: rendered_callback_def)
  with run have "then_rendered w cfg (invoke w h3 f cfg ramlObj) = (Promised (Resolved x), h4)"
    by (simp add: then_rendered_def)
  with f attach have "parsed_callback w cfg ramlObj h2 = (Promised (Resolved x), h4)"
    by (simp add: parsed_callback_def dispatch_def)
  with stamp parsed show "render w source config h = (Promised (Resolved x), h4)"
    by (simp add: render_def)
next
  assume "truthy g"
  with g have "rendered_callback w cfg x h4 = invoke w h4 g cfg x"
    by (simp add: rendered_callback_def)
  with run have "then_rendered w cfg (invoke w h3 f cfg ramlObj)
      = (Promised (settled (fst (invoke w h4 g cfg x))), snd (invoke w h4 g cfg x))"
    by (simp add: then_rendered_def split: prod.splits)
  with f attach have "parsed_callback w cfg ramlObj h2
      = (Promised (settled (fst (invoke w h4 g cfg x))), snd (invoke w h4 g cfg x))"
    by (simp add: parsed_callback_def dispatch_def)
  with stamp parsed show "render w source config h
      = (Promised (settled (fst (invoke w h4 g cfg x))), snd (invoke w h4 g cfg x))"
    by (simp add: render_def)
qed

theorem render_with_renderer_witness:
  "fst (render example_world (Str ''api.raml'') (Ref 0) store_config_renderer)
     = Promised (Resolved (Str ''<x>''))
   \<and> fst (render example_world (Str ''api.raml'') (Ref 0) store_config_both)
     = Promised (Resolved (Str ''min(<x>)''))"
proof -
  let ?w = example_world
  let ?r1 = "[JSObj Plain [(''processRamlObj'', Ref 1), (''raml2HtmlVersion'', Str ''2.0.2'')] [],
      JSObj Callable [] [], JSObj Callable [] []]"
  let ?r2 = "?r1 @ [JSObj Plain [(''title'', Str ''api.raml'')] []]"
  let ?r3 = "?r1 @ [JSObj Plain [(''title'', Str ''api.raml''), (''config'', Ref 0)] []]"
  have a1: "stamp_config ?w (Ref 0) store_config_renderer = Inr (Ref 0, ?r1)"
    by (simp add: stamp_config_def set_prop_def obj_set_def example_world_def
        store_config_renderer_def)
  have a2: "raml2obj_parse ?w (Str ''api.raml'') ?r1 = (Promised (Resolved (Ref 3)), ?r2)"
    by (simp add: example_world_def)
  have a3: "set_prop ?r2 (Ref 3) ''config'' (Ref 0) = Inr ?r3"
    by (simp add: set_prop_def obj_set_def)
  have a4: "get_prop ?r3 (Ref 0) ''processRamlObj'' = Inr (Ref 1)" "truthy (Ref 1)"
    by (simp_all add: get_prop_def get_member_def obj_member_def named_member_def)
  have a5: "invoke ?w ?r3 (Ref 1) (Ref 0) (Ref 3) = (Promised (Resolved (Str ''<x>'')), ?r3)"
    by (simp add: invoke_def example_world_def)
  have a6: "get_prop ?r3 (Ref 0) ''postProcessHtml'' = Inr Undefined"
    by (simp add: get_prop_def get_member_def obj_member_def named_member_def)
  from render_with_renderer [OF a1 a2 a3 a4 a5 a6]
  have one: "fst (render ?w (Str ''api.raml'') (Ref 0) store_config_renderer)
     = Promised (Resolved (Str ''<x>''))"
    by simp
  let ?b1 = "[JSObj Plain [(''processRamlObj'', Ref 1), (''postProcessHtml'', Ref 2),
        (''raml2HtmlVersion'', Str ''2.0.2'')] [],
      JSObj Callable [] [], JSObj Callable [] []]"
  let ?b2 = "?b1 @ [JSObj Plain [(''title'', Str ''api.raml'')] []]"
  let ?b3 = "?b1 @ [JSObj Plain [(''title'', Str ''api.raml''), (''config'', Ref 0)] []]"
  have b1: "stamp_config ?w (Ref 0) store_config_both = Inr (Ref 0, ?b1)"
    by (simp add: stamp_config_def set_prop_def obj_set_def example_world_def
        store_config_both_def)
  have b2: "raml2obj_parse ?w (Str ''api.raml'') ?b1 = (Promised (Resolved (Ref 3)), ?b2)"
    by (simp add: example_world_def)
  have b3: "set_prop ?b2 (Ref 3) ''config'' (Ref 0) = Inr ?b3"
    by (simp add: set_prop_def obj_set_def)
  have b4: "get_prop ?b3 (Ref 0) ''processRamlObj'' = Inr (Ref 1)" "truthy (Ref 1)"
    by (simp_all add: get_prop_def get_member_def obj_member_def named_member_def)
  have b5: "invoke ?w ?b3 (Ref 1) (Ref 0) (Ref 3) = (Promised (Resolved (Str ''<x>'')), ?b3)"
    by (simp add: invoke_def example_world_def)
  have b6: "get_prop ?b3 (Ref 0) ''postProcessHtml'' = Inr (Ref 2)"
    by (simp add: get_prop_def get_member_def obj_member_def named_member_def)
  have b7: "invoke ?w ?b3 (Ref 2) (Ref 0) (Str ''<x>'')
      = (Promised (Resolved (Str ''min(<x>)'')), ?b3)"
    by (simp add: invoke_def example_world_def to_string_def)
  from render_with_renderer [OF b1 b2 b3 b4 b5 b6] b7
  have two: "fst (render ?w (Str ''api.raml'') (Ref 0) store_config_both)
     = Promised (Resolved (Str ''min(<x>)''))"
    by simp
  from one two show ?thesis ..
qed

text \<open>
  C2. When the parser's promise is rejected with \<open>E\<close>, the promise of \<open>render\<close> is
  rejected with \<open>E\<close> itself, and the store is the one the parser left: nothing else ran.
\<close>

theorem render_parser_rejection:
  assumes "stamp_config w config h = Inr (cfg, h1)"
    and "raml2obj_parse w source h1 = (Promised (Rejected E), h2)"
  shows "render w source config h = (Promised (Rejected E), h2)"
  using assms by (simp add: render_def)

theorem render_parser_rejection_witness:
  "render rejecting_world (Str ''api.raml'') (Ref 0) store_config_both
     = (Promised (Rejected (Raised (Str ''no such file''))),
        [JSObj Plain [(''processRamlObj'', Ref 1), (''postProcessHtml'', Ref 2),
           (''raml2HtmlVersion'', Str ''2.0.2'')] [],
         JSObj Callable [] [], JSObj Callable [] []])"
proof -
  let ?b1 = "[JSObj Plain [(''processRamlObj'', Ref 1), (''postProcessHtml'', Ref 2),
        (''raml2HtmlVersion'', Str ''2.0.2'')] [],
      JSObj Callable [] [], JSObj Callable [] []]"
  have 1: "stamp_config rejecting_world (Ref 0) store_config_both = Inr (Ref 0, ?b1)"
    by (simp add: stamp_config_def set_prop_def obj_set_def rejecting_world_def
        store_config_both_def)
  have 2: "raml2obj_parse rejecting_world (Str ''api.raml'') ?b1
      = (Promised (Rejected (Raised (Str ''no such file''))), ?b1)"
    by (simp add: rejecting_world_def)
  from render_parser_rejection [OF 1 2] show ?thesis .
qed

text \<open>
  C3. \<open>render(source, {})\<close>, for a configuration without own properties and without
  \<open>processRamlObj\<close>, and a parser that gives an object other than the configuration and
  leaves the configuration as it is: \<open>render\<close> resolves to the parsed object itself, its
  \<open>config\<close> field is the configuration, and the configuration's own properties are
  \<open>raml2HtmlVersion\<close> with the package version and nothing else. The store is the
  parser's with that field added: no function was called.
\<close>

theorem render_empty_config:
  assumes c: "c < length h" "h ! c = JSObj Plain [] inh"
    and nof: "map_of inh ''processRamlObj'' = None"
    and parsed: "raml2obj_parse w source
        (h[c := JSObj Plain [(''raml2HtmlVersion'', Str (pjson_version w))] inh])
        = (Promised (Resolved (Ref r)), h2)"
    and r: "r < length h2" "r \<noteq> c"
    and frame: "c < length h2"
      "h2 ! c = JSObj Plain [(''raml2HtmlVersion'', Str (pjson_version w))] inh"
    and h3: "h3 = h2[r := obj_set (h2 ! r) ''config'' (Ref c)]"
  shows "render w source (Ref c) h = (Promised (Resolved (Ref r)), h3)
     \<and> get_member h3 (Ref r) ''config'' = Ref c
     \<and> kind (h3 ! c) = Plain
     \<and> own (h3 ! c) = [(''raml2HtmlVersion'', Str (pjson_version w))]"
proof -
  have stamp: "stamp_config w (Ref c) h
      = Inr (Ref c, h[c := JSObj Plain [(''raml2HtmlVersion'', Str (pjson_version w))] inh])"
    using c by (simp add: stamp_config_object obj_set_def)
  have at_c: "h3 ! c = JSObj Plain [(''raml2HtmlVersion'', Str (pjson_version w))] inh"
    using r frame h3 by simp
  have "get_prop h3 (Ref c) ''processRamlObj'' = Inr Undefined"
    using frame h3 at_c nof
    by (simp add: get_prop_def get_member_def obj_member_def named_member_def)
  then have "dispatch w (Ref c) (Ref r) h3 = (Returned (Ref r), h3)"
    by (simp add: dispatch_def)
  with render_resolved [OF stamp parsed r(1)] h3
  have 1: "render w source (Ref c) h = (Promised (Resolved (Ref r)), h3)" by simp
  have "set_prop h2 (Ref r) ''config'' (Ref c) = Inr h3"
    using r h3 by (simp add: set_prop_def)
  then have 2: "get_member h3 (Ref r) ''config'' = Ref c" by (rule get_member_attached)
  from 1 2 at_c show ?thesis by simp
qed

theorem render_empty_config_witness:
  "render example_world (Str ''api.raml'') (Ref 0) store_config_empty
     = (Promised (Resolved (Ref 1)),
        [JSObj Plain [(''raml2HtmlVersion'', Str ''2.0.2'')] [],
         JSObj Plain [(''title'', Str ''api.raml''), (''config'', Ref 0)] []])"
proof -
  let ?h1 = "[JSObj Plain [(''raml2HtmlVersion'', Str ''2.0.2'')] []]"
  let ?h2 = "?h1 @ [JSObj Plain [(''title'', Str ''api.raml'')] []]"
  have v: "pjson_version example_world = ''2.0.2''" by (simp add: example_world_def)
  have 1: "0 < length store_config_empty" "store_config_empty ! 0 = JSObj Plain [] []"
    by (simp_all add: store_config_empty_def)
  have 2: "map_of ([] :: (string \<times> jsval \<times> bool) list) ''processRamlObj'' = None" by simp
  have 3: "raml2obj_parse example_world (Str ''api.raml'')
        (store_config_empty[0 := JSObj Plain
           [(''raml2HtmlVersion'', Str (pjson_version example_world))] []])
        = (Promised (Resolved (Ref 1)), ?h2)"
    by (simp add: example_world_def store_config_empty_def)
  have 4: "1 < length ?h2" "(1::nat) \<noteq> 0" "0 < length ?h2" by simp_all
  have 5: "?h2 ! 0 = JSObj Plain [(''raml2HtmlVersion'', Str (pjson_version example_world))] []"
    by (simp add: v)
  from render_empty_config [OF 1 2 3 4 5 refl]
  show ?thesis by (simp add: obj_set_def)
qed

text \<open>
  C4. For a configuration object of the caller at address \<open>c\<close>, \<open>render\<close> hands to the
  parser the store \<open>h1\<close> that differs from the caller's only in the object at \<open>c\<close>, and
  there only in the own property \<open>raml2HtmlVersion\<close>, which is the package version. When
  the parser resolves with an object, the rest of \<open>render\<close> runs with the same reference
  in a store where the \<open>config\<close> field of the parsed object is that reference, and that
  step leaves the configuration as it was unless the parsed object is the configuration.
\<close>

theorem render_stamps_config:
  assumes c: "c < length h"
    and h1: "h1 = h[c := obj_set (h ! c) ''raml2HtmlVersion'' (Str (pjson_version w))]"
  shows "stamp_config w (Ref c) h = Inr (Ref c, h1)
     \<and> length h1 = length h
     \<and> (\<forall>a. a \<noteq> c \<longrightarrow> h1 ! a = h ! a)
     \<and> kind (h1 ! c) = kind (h ! c)
     \<and> inherited (h1 ! c) = inherited (h ! c)
     \<and> map_of (own (h1 ! c))
         = (map_of (own (h ! c)))(''raml2HtmlVersion'' \<mapsto> Str (pjson_version w))
     \<and> (raml2obj_parse w source h1 = (Promised (Resolved (Ref r)), h2) \<and> r < length h2
        \<longrightarrow> render w source (Ref c) h
              = (case dispatch w (Ref c) (Ref r) (h2[r := obj_set (h2 ! r) ''config'' (Ref c)]) of
                   (res, h') \<Rightarrow> (Promised (settled res), h'))
            \<and> get_member (h2[r := obj_set (h2 ! r) ''config'' (Ref c)]) (Ref r) ''config''
                = Ref c
            \<and> (r \<noteq> c \<longrightarrow> h2[r := obj_set (h2 ! r) ''config'' (Ref c)] ! c = h2 ! c))"
proof (intro conjI impI allI)
  show stamp: "stamp_config w (Ref c) h = Inr (Ref c, h1)"
    using c h1 by (simp add: stamp_config_object)
  show "length h1 = length h" using h1 by simp
  show "\<And>a. a \<noteq> c \<Longrightarrow> h1 ! a = h ! a" using h1 by simp
  show "kind (h1 ! c) = kind (h ! c)" using c h1 by (simp add: obj_set_def)
  show "inherited (h1 ! c) = inherited (h ! c)" using c h1 by (simp add: obj_set_def)
  show "map_of (own (h1 ! c))
         = (map_of (own (h ! c)))(''raml2HtmlVersion'' \<mapsto> Str (pjson_version w))"
    using c h1 by (simp add: obj_set_def update_conv')
  {
    assume p: "raml2obj_parse w source h1 = (Promised (Resolved (Ref r)), h2) \<and> r < length h2"
    then have parsed: "raml2obj_parse w source h1 = (Promised (Resolved (Ref r)), h2)"
      and r: "r < length h2" by simp_all
    show "render w source (Ref c) h
              = (case dispatch w (Ref c) (Ref r) (h2[r := obj_set (h2 ! r) ''config'' (Ref c)]) of
                   (res, h') \<Rightarrow> (Promised (settled res), h'))"
      using stamp parsed r by (rule render_resolved)
    have "set_prop h2 (Ref r) ''config'' (Ref c)
        = Inr (h2[r := obj_set (h2 ! r) ''config'' (Ref c)])"
      using r by (simp add: set_prop_def)
    then show "get_member (h2[r := obj_set (h2 ! r) ''config'' (Ref c)]) (Ref r) ''config''
                = Ref c"
      by (rule get_member_attached)
    show "r \<noteq> c \<Longrightarrow> h2[r := obj_set (h2 ! r) ''config'' (Ref c)] ! c = h2 ! c" by simp
  }
qed

theorem render_stamps_config_witness:
  "stamp_config example_world (Ref 0) store_config_both
     = Inr (Ref 0,
        [JSObj Plain [(''processRamlObj'', Ref 1), (''postProcessHtml'', Ref 2),
           (''raml2HtmlVersion'', Str ''2.0.2'')] [],
         JSObj Callable [] [], JSObj Callable [] []])
   \<and> get_member
        ([JSObj Plain [(''processRamlObj'', Ref 1), (''postProcessHtml'', Ref 2),
           (''raml2HtmlVersion'', Str ''2.0.2'')] [],
          JSObj Callable [] [], JSObj Callable [] [],
          JSObj Plain [(''title'', Str ''api.raml''), (''config'', Ref 0)] []])
        (Ref 3) ''config'' = Ref 0"
proof -
  let ?b1 = "[JSObj Plain [(''processRamlObj'', Ref 1), (''postProcessHtml'', Ref 2),
        (''raml2HtmlVersion'', Str ''2.0.2'')] [],
      JSObj Callable [] [], JSObj Callable [] []]"
  let ?b2 = "?b1 @ [JSObj Plain [(''title'', Str ''api.raml'')] []]"
  have c: "0 < length store_config_both" by (simp add: store_config_both_def)
  have h1: "?b1 = store_config_both[0 := obj_set (store_config_both ! 0) ''raml2HtmlVersion''
      (Str (pjson_version example_world))]"
    by (simp add: store_config_both_def obj_set_def example_world_def)
  have p: "raml2obj_parse example_world (Str ''api.raml'') ?b1
      = (Promised (Resolved (Ref 3)), ?b2) \<and> 3 < length ?b2"
    by (simp add: example_world_def)
  from render_stamps_config [OF c h1, of "Str ''api.raml''" 3 ?b2] p
  have "stamp_config example_world (Ref 0) store_config_both = Inr (Ref 0, ?b1)"
    and "get_member (?b2[3 := obj_set (?b2 ! 3) ''config'' (Ref 0)]) (Ref 3) ''config'' = Ref 0"
    by blast+
  then show ?thesis by (simp add: obj_set_def)
qed

section \<open>Properties of the default configuration\<close>

lemma replace_all_prefix:
  "pat \<noteq> [] \<Longrightarrow> x \<notin> set q \<Longrightarrow> prefix q (replace_all pat [x] s) \<Longrightarrow> prefix q s"
proof (induction pat "[x]" s arbitrary: q rule: replace_all.induct)
  case (1 pat)
  then show ?case by simp
next
  case (2 pat c cs)
  show ?case
  proof (cases q)
    case Nil
    then show ?thesis by simp
  next
    case (Cons d q')
    show ?thesis
    proof (cases "prefix pat (c # cs)")
      case True
      with "2.prems" Cons show ?thesis by simp
    next
      case False
      with "2.prems" Cons have d: "d = c" and p: "prefix q' (replace_all pat [x] cs)"
        and x: "x \<notin> set q'" by simp_all
      from "2.hyps"(3) [OF \<open>pat \<noteq> []\<close> False \<open>pat \<noteq> []\<close> x p] have "prefix q' cs" .
      with d Cons show ?thesis by simp
    qed
  qed
qed

lemma replace_all_no_match:
  "pat \<noteq> [] \<Longrightarrow> x \<notin> set pat \<Longrightarrow> \<not> sublist pat (replace_all pat [x] s)"
proof (induction pat "[x]" s rule: replace_all.induct)
  case (1 pat)
  then show ?case by simp
next
  case (2 pat c cs)
  from \<open>pat \<noteq> []\<close> obtain p ps where pat: "pat = p # ps" by (cases pat) auto
  show ?case
  proof (cases "prefix pat (c # cs)")
    case True
    let ?r = "replace_all pat [x] (drop (length pat) (c # cs))"
    from "2.hyps"(2) [OF \<open>pat \<noteq> []\<close> True \<open>pat \<noteq> []\<close> \<open>x \<notin> set pat\<close>]
    have ih: "\<not> sublist pat ?r" .
    have "\<not> prefix pat (x # ?r)" using pat \<open>x \<notin> set pat\<close> by auto
    with ih have "\<not> sublist pat (x # ?r)" by (simp add: sublist_Cons_right)
    with True \<open>pat \<noteq> []\<close> show ?thesis by simp
  next
    case False
    let ?r = "replace_all pat [x] cs"
    from "2.hyps"(3) [OF \<open>pat \<noteq> []\<close> False \<open>pat \<noteq> []\<close> \<open>x \<notin> set pat\<close>]
    have ih: "\<not> sublist pat ?r" .
    have "\<not> prefix pat (c # ?r)"
    proof
      assume "prefix pat (c # ?r)"
      with pat have c: "p = c" and ps: "prefix ps ?r" by auto
      from \<open>x \<notin> set pat\<close> pat have "x \<notin> set ps" by simp
      from replace_all_prefix [OF \<open>pat \<noteq> []\<close> this ps] have "prefix ps cs" .
      with c pat have "prefix pat (c # cs)" by simp
      with False show False ..
    qed
    with ih have "\<not> sublist pat (c # ?r)" by (simp add: sublist_Cons_right)
    with False \<open>pat \<noteq> []\<close> show ?thesis by simp
  qed
qed

lemma unescaped_no_entity: "\<not> sublist ''&quot;'' (replace_all ''&quot;'' [CHR 0x22] html)"
  by (rule replace_all_no_match) simp_all

text \<open>
  C7. Replacing every \<open>&quot;\<close> by a double quote leaves no \<open>&quot;\<close> in any string, and
  whenever the default \<open>processRamlObj\<close> returns a promise resolved with a value, that
  value is a string without \<open>&quot;\<close>.
\<close>

theorem processRamlObj_output_unescaped:
  "\<not> sublist ''&quot;'' (replace_all ''&quot;'' [CHR 0x22] emitted)
   \<and> (fst (default_processRamlObj lib mainTemplate templatesPath ramlObj h)
         = Promised (Resolved v)
       \<longrightarrow> (\<exists>html. v = Str html \<and> \<not> sublist ''&quot;'' html))"
proof (intro conjI impI)
  show "\<not> sublist ''&quot;'' (replace_all ''&quot;'' [CHR 0x22] emitted)"
    by (rule unescaped_no_entity)
next
  assume "fst (default_processRamlObj lib mainTemplate templatesPath ramlObj h)
         = Promised (Resolved v)"
  then obtain s where "v = Str (replace_all ''&quot;'' [CHR 0x22] s)"
    by (auto simp: default_processRamlObj_def split: prod.splits sum.splits)
  then show "\<exists>html. v = Str html \<and> \<not> sublist ''&quot;'' html"
    using unescaped_no_entity by blast
qed

theorem processRamlObj_output_unescaped_witness:
  "fst (default_processRamlObj example_libraries (Str ''main.nunjucks'') (Str ''templates'')
          (Ref 0) [JSObj Plain [] []])
     = Promised (Resolved (Str [CHR ''<'', CHR ''a'', CHR '' '', CHR ''t'', CHR ''i'', CHR ''t'',
         CHR ''l'', CHR ''e'', CHR ''='', CHR 0x22, CHR ''x'', CHR 0x22, CHR ''>'']))
   \<and> \<not> sublist ''&quot;'' [CHR ''<'', CHR ''a'', CHR '' '', CHR ''t'', CHR ''i'', CHR ''t'',
         CHR ''l'', CHR ''e'', CHR ''='', CHR 0x22, CHR ''x'', CHR 0x22, CHR ''>'']"
proof -
  have run: "fst (default_processRamlObj example_libraries (Str ''main.nunjucks'')
          (Str ''templates'') (Ref 0) [JSObj Plain [] []])
     = Promised (Resolved (Str [CHR ''<'', CHR ''a'', CHR '' '', CHR ''t'', CHR ''i'', CHR ''t'',
         CHR ''l'', CHR ''e'', CHR ''='', CHR 0x22, CHR ''x'', CHR 0x22, CHR ''>'']))"
    by (simp add: default_processRamlObj_def example_libraries_def alloc_def set_prop_def)
  from processRamlObj_output_unescaped [of "[]" example_libraries "Str ''main.nunjucks''"
      "Str ''templates''" "Ref 0" "[JSObj Plain [] []]"
      "Str [CHR ''<'', CHR ''a'', CHR '' '', CHR ''t'', CHR ''i'', CHR ''t'',
         CHR ''l'', CHR ''e'', CHR ''='', CHR 0x22, CHR ''x'', CHR 0x22, CHR ''>'']"] run
  show ?thesis by auto
qed

text \<open>
  C8. Without a main template (a falsy \<open>mainTemplate\<close>), the renderer of
  \<open>getDefaultConfig\<close> uses the bundled template \<open>./lib/template.nunjucks\<close> and the
  directory of the package as search path, whatever \<open>templatesPath\<close> the caller gave.
  With a main template, it uses that template and the caller's \<open>templatesPath\<close>.
\<close>

theorem getDefaultConfig_templates:
  "(\<not> truthy mainTemplate \<longrightarrow>
      processRamlObj (getDefaultConfig eng lib dirname mainTemplate templatesPath)
        = default_processRamlObj lib (Str ''./lib/template.nunjucks'') (Str dirname)
      \<and> getDefaultConfig eng lib dirname mainTemplate templatesPath
        = getDefaultConfig eng lib dirname mainTemplate other)
   \<and> (truthy mainTemplate \<longrightarrow>
      processRamlObj (getDefaultConfig eng lib dirname mainTemplate templatesPath)
        = default_processRamlObj lib mainTemplate templatesPath)"
  by (simp add: getDefaultConfig_def)

theorem getDefaultConfig_templates_witness:
  "processRamlObj (getDefaultConfig example_engine path_reporting_libraries ''/opt/raml2html''
       Undefined (Str ''/home/me/templates'')) (Ref 0) [JSObj Plain [] []]
     = (Threw (Raised (Str ''/opt/raml2html'')), [JSObj Plain [] []])
   \<and> processRamlObj (getDefaultConfig example_engine path_reporting_libraries ''/opt/raml2html''
       (Str ''mine.nunjucks'') (Str ''/home/me/templates'')) (Ref 0) [JSObj Plain [] []]
     = (Threw (Raised (Str ''/home/me/templates'')), [JSObj Plain [] []])"
proof -
  have a: "\<not> truthy Undefined" and b: "truthy (Str ''mine.nunjucks'')" by simp_all
  from a getDefaultConfig_templates [of Undefined example_engine path_reporting_libraries
      "''/opt/raml2html''" "Str ''/home/me/templates''"]
  have 1: "processRamlObj (getDefaultConfig example_engine path_reporting_libraries
       ''/opt/raml2html'' Undefined (Str ''/home/me/templates''))
     = default_processRamlObj path_reporting_libraries (Str ''./lib/template.nunjucks'')
         (Str ''/opt/raml2html'')"
    by blast
  from b getDefaultConfig_templates [of "Str ''mine.nunjucks''" example_engine
      path_reporting_libraries "''/opt/raml2html''" "Str ''/home/me/templates''"]
  have 2: "processRamlObj (getDefaultConfig example_engine path_reporting_libraries
       ''/opt/raml2html'' (Str ''mine.nunjucks'') (Str ''/home/me/templates''))
     = default_processRamlObj path_reporting_libraries (Str ''mine.nunjucks'')
         (Str ''/home/me/templates'')"
    by blast
  show ?thesis
    unfolding 1 2 by (simp add: default_processRamlObj_def path_reporting_libraries_def)
qed

lemma minimize_callbacks_settled:
  "p \<noteq> Pending \<Longrightarrow> minimize_callbacks eng calls p h = (p', h') \<Longrightarrow>
   p' = p \<and> length h \<le> length h' \<and> take (length h) h' = h"
proof (induction calls arbitrary: h)
  case Nil
  then show ?case by simp
next
  case (Cons c calls)
  obtain error result where c: "c = (error, result)" by (cases c)
  show ?case
  proof (cases "truthy error")
    case True
    let ?h = "h @ [JSObj (ErrorOf (to_string eng h error)) [] []]"
    from Cons.prems True c have "minimize_callbacks eng calls p ?h = (p', h')"
      by (simp add: alloc_def)
    from Cons.IH [OF Cons.prems(1) this]
    have "p' = p" and l: "length ?h \<le> length h'" and t: "take (length ?h) h' = ?h" by simp_all
    from t have "take (length h) (take (length ?h) h') = take (length h) ?h" by simp
    then have "take (length h) h' = h" by (simp add: min_def)
    with \<open>p' = p\<close> l show ?thesis by simp
  next
    case False
    with Cons.prems c have "minimize_callbacks eng calls p h = (p', h')" by simp
    from Cons.IH [OF Cons.prems(1) this] show ?thesis .
  qed
qed

text \<open>
  C9. The default \<open>postProcessHtml\<close> gives the html to the minifier. When the minifier's
  first call of the callback has a truthy error, the promise is rejected with a new
  \<open>Error\<close> object made from the error: it is at an address that the store did not have
  when the callback ran, so it is not the error itself. When the first call has no
  error, the promise is resolved with the result.
\<close>

theorem default_postProcessHtml_settles:
  assumes "minimize_parse lib html h = (Callbacks ((error, result) # calls), h1)"
  shows "(truthy error \<longrightarrow>
           fst (default_postProcessHtml eng lib html h)
             = Promised (Rejected (Raised (Ref (length h1))))
           \<and> snd (default_postProcessHtml eng lib html h) ! length h1
             = JSObj (ErrorOf (to_string eng h1 error)) [] []
           \<and> (\<forall>b. error = Ref b \<and> b < length h1 \<longrightarrow> Ref (length h1) \<noteq> error))
       \<and> (\<not> truthy error \<longrightarrow>
           fst (default_postProcessHtml eng lib html h) = Promised (Resolved result))"
proof (intro conjI impI)
  assume t: "truthy error"
  let ?h = "h1 @ [JSObj (ErrorOf (to_string eng h1 error)) [] []]"
  obtain p' h' where r: "minimize_callbacks eng calls (Rejected (Raised (Ref (length h1)))) ?h
      = (p', h')" by (cases "minimize_callbacks eng calls (Rejected (Raised (Ref (length h1)))) ?h")
  from minimize_callbacks_settled [OF _ r]
  have p: "p' = Rejected (Raised (Ref (length h1)))" and tk: "take (length ?h) h' = ?h"
    and l: "length ?h \<le> length h'" by simp_all
  from assms t r have res: "default_postProcessHtml eng lib html h = (Promised p', h')"
    by (simp add: default_postProcessHtml_def alloc_def)
  from res p show "fst (default_postProcessHtml eng lib html h)
             = Promised (Rejected (Raised (Ref (length h1))))" by simp
  have "h' ! length h1 = take (length ?h) h' ! length h1" by simp
  also have "\<dots> = ?h ! length h1" by (simp only: tk)
  finally show "snd (default_postProcessHtml eng lib html h) ! length h1
             = JSObj (ErrorOf (to_string eng h1 error)) [] []"
    using res by simp
  show "\<forall>b. error = Ref b \<and> b < length h1 \<longrightarrow> Ref (length h1) \<noteq> error" by auto
next
  assume f: "\<not> truthy error"
  obtain p' h' where r: "minimize_callbacks eng calls (Resolved result) h1 = (p', h')"
    by (cases "minimize_callbacks eng calls (Resolved result) h1")
  from minimize_callbacks_settled [OF _ r] have p: "p' = Resolved result" by simp
  from assms f r p show "fst (default_postProcessHtml eng lib html h) = Promised (Resolved result)"
    by (simp add: default_postProcessHtml_def)
qed

theorem default_postProcessHtml_settles_witness:
  "default_postProcessHtml example_engine path_reporting_libraries (Str ''<p> a </p>'')
       [JSObj Plain [] []]
     = (Promised (Rejected (Raised (Ref 1))),
        [JSObj Plain [] [], JSObj (ErrorOf ''unclosed tag'') [] []])
   \<and> fst (default_postProcessHtml example_engine example_libraries (Str ''<p> a </p>'')
       [JSObj Plain [] []])
     = Promised (Resolved (Str ''<p> a </p>''))"
proof -
  have 1: "minimize_parse path_reporting_libraries (Str ''<p> a </p>'') [JSObj Plain [] []]
      = (Callbacks ((Str ''unclosed tag'', Undefined) # []), [JSObj Plain [] []])"
    by (simp add: path_reporting_libraries_def)
  have 2: "minimize_parse example_libraries (Str ''<p> a </p>'') [JSObj Plain [] []]
      = (Callbacks ((Null, Str ''<p> a </p>'') # []), [JSObj Plain [] []])"
    by (simp add: example_libraries_def)
  have len: "length (snd (default_postProcessHtml example_engine path_reporting_libraries
      (Str ''<p> a </p>'') [JSObj Plain [] []])) = 2"
    by (simp add: default_postProcessHtml_def path_reporting_libraries_def alloc_def)
  have hd: "snd (default_postProcessHtml example_engine path_reporting_libraries
      (Str ''<p> a </p>'') [JSObj Plain [] []]) ! 0 = JSObj Plain [] []"
    by (simp add: default_postProcessHtml_def path_reporting_libraries_def alloc_def)
  from default_postProcessHtml_settles [OF 1, of example_engine]
  have a: "fst (default_postProcessHtml example_engine path_reporting_libraries
        (Str ''<p> a </p>'') [JSObj Plain [] []]) = Promised (Rejected (Raised (Ref 1)))"
    and b: "snd (default_postProcessHtml example_engine path_reporting_libraries
        (Str ''<p> a </p>'') [JSObj Plain [] []]) ! 1 = JSObj (ErrorOf ''unclosed tag'') [] []"
    by (simp_all add: to_string_def)
  from len hd b have "snd (default_postProcessHtml example_engine path_reporting_libraries
        (Str ''<p> a </p>'') [JSObj Plain [] []])
      = [JSObj Plain [] [], JSObj (ErrorOf ''unclosed tag'') [] []]"
    by (simp add: list_eq_iff_nth_eq less_Suc_eq numeral_2_eq_2)
  with a have r: "default_postProcessHtml example_engine path_reporting_libraries
        (Str ''<p> a </p>'') [JSObj Plain [] []]
     = (Promised (Rejected (Raised (Ref 1))),
        [JSObj Plain [] [], JSObj (ErrorOf ''unclosed tag'') [] []])"
    by (simp add: prod_eq_iff)
  from default_postProcessHtml_settles [OF 2, of example_engine]
  have s: "fst (default_postProcessHtml example_engine example_libraries (Str ''<p> a </p>'')
       [JSObj Plain [] []]) = Promised (Resolved (Str ''<p> a </p>''))"
    by simp
  from r s show ?thesis ..
qed

end
